theory Spec2Isabelle
  imports Main "HOL-Library.Word"
begin

section \<open>Values shared by the modules\<close>

text \<open>
  A JavaScript string is a sequence of 16-bit code units, a \<open>Uint8Array\<close> a sequence of
  bytes. \<open>Date.now()\<close> and the remote timestamps are epoch milliseconds.
\<close>

type_synonym byte = "8 word"
type_synonym jsstring = "16 word list"
type_synonym millis = nat

text \<open>
  The exceptions a promise of the program can reject with. The first five are thrown by
  the platform (\<open>JSON.parse\<close>, \<open>crypto.subtle.importKey\<close>, \<open>atob\<close>/\<open>btoa\<close>,
  \<open>crypto.subtle.decrypt\<close>, \<open>new URL\<close>); \<open>StorageError\<close> stands for a rejected
  storage call.
\<close>

datatype error =
  SyntaxError | DataError | InvalidCharacterError | OperationError | TypeError | StorageError

text \<open>Truthiness of a \<open>string | null\<close> value: \<open>null\<close> and the empty string are falsy.\<close>

fun truthy_string :: "jsstring option \<Rightarrow> bool" where
  "truthy_string None = False"
| "truthy_string (Some s) = (s \<noteq> [])"

text \<open>Truthiness of an optional number: \<open>undefined\<close> and \<open>0\<close> are falsy.\<close>

fun truthy_number :: "nat option \<Rightarrow> bool" where
  "truthy_number None = False"
| "truthy_number (Some n) = (n \<noteq> 0)"

section \<open>The platform\<close>

text \<open>
  The functions of the browser that \<open>utils/crypto\<close> and the background script call.
  \<open>btoa\<close>, \<open>atob\<close>, \<open>TextEncoder\<close> and \<open>TextDecoder\<close> are written out after their
  standards (base64 with the forgiving decoder; UTF-8 with replacement of unpaired
  surrogates on encoding, and with replacement of malformed sequences and removal of a
  leading byte order mark on decoding). The cryptographic primitives and \<open>JSON\<close> are
  parameters of the functions that call them.
\<close>

subsection \<open>\<open>String.fromCharCode(...bytes)\<close> and \<open>Uint8Array.from(s, c => c.charCodeAt(0))\<close>\<close>

definition fromCharCode :: "byte list \<Rightarrow> jsstring" where
  "fromCharCode bs = map ucast bs"

definition charCodes :: "jsstring \<Rightarrow> byte list" where
  "charCodes s = map ucast s"

subsection \<open>\<open>btoa\<close> and \<open>atob\<close>\<close>

definition b64_code :: "nat \<Rightarrow> nat" where
  "b64_code n =
     (if n < 26 then n + 65 else if n < 52 then n + 71 else if n < 62 then n - 4
      else if n = 62 then 43 else 47)"

definition b64_char :: "nat \<Rightarrow> 16 word" where
  "b64_char n = of_nat (b64_code n)"

definition b64_value :: "nat \<Rightarrow> nat option" where
  "b64_value v =
     (if 65 \<le> v \<and> v \<le> 90 then Some (v - 65)
      else if 97 \<le> v \<and> v \<le> 122 then Some (v - 71)
      else if 48 \<le> v \<and> v \<le> 57 then Some (v + 4)
      else if v = 43 then Some 62
      else if v = 47 then Some 63
      else None)"

definition b64_index :: "16 word \<Rightarrow> nat option" where
  "b64_index c = b64_value (unat c)"

text \<open>Three bytes make four groups of six bits; a last group of one or two bytes is padded.\<close>

fun b64_sextets :: "nat list \<Rightarrow> nat list" where
  "b64_sextets (a # b # c # bs) =
     [a div 4, (a mod 4) * 16 + b div 16, (b mod 16) * 4 + c div 64, c mod 64] @ b64_sextets bs"
| "b64_sextets [a, b] = [a div 4, (a mod 4) * 16 + b div 16, (b mod 16) * 4]"
| "b64_sextets [a] = [a div 4, (a mod 4) * 16]"
| "b64_sextets [] = []"

definition b64_padding :: "nat \<Rightarrow> jsstring" where
  "b64_padding n = replicate ((3 - n mod 3) mod 3) 61"

definition b64_encode :: "nat list \<Rightarrow> jsstring" where
  "b64_encode bs = map b64_char (b64_sextets bs) @ b64_padding (length bs)"

text \<open>\<open>btoa\<close> throws on a character above U+00FF.\<close>

definition btoa :: "jsstring \<Rightarrow> error + jsstring" where
  "btoa s =
     (if list_ex (\<lambda>c. 255 < unat c) s then Inl InvalidCharacterError
      else Inr (b64_encode (map unat s)))"

definition is_ascii_whitespace :: "16 word \<Rightarrow> bool" where
  "is_ascii_whitespace c = (c = 9 \<or> c = 10 \<or> c = 12 \<or> c = 13 \<or> c = 32)"

text \<open>When the length is a multiple of four, one or two \<open>=\<close> at the end are removed.\<close>

fun strip_padding :: "jsstring \<Rightarrow> jsstring" where
  "strip_padding s =
     (if length s mod 4 = 0 then
        (case rev s of
           a # b # r \<Rightarrow> if a = 61 then (if b = 61 then rev r else rev (b # r)) else s
         | _ \<Rightarrow> s)
      else s)"

text \<open>Four groups of six bits make three bytes; the bits left over at the end are dropped.\<close>

fun b64_octets :: "nat list \<Rightarrow> nat list" where
  "b64_octets (a # b # c # d # r) =
     [a * 4 + b div 16, (b mod 16) * 16 + c div 4, (c mod 4) * 64 + d] @ b64_octets r"
| "b64_octets [a, b, c] = [a * 4 + b div 16, (b mod 16) * 16 + c div 4]"
| "b64_octets [a, b] = [a * 4 + b div 16]"
| "b64_octets [a] = []"
| "b64_octets [] = []"

fun those_indices :: "jsstring \<Rightarrow> nat list option" where
  "those_indices [] = Some []"
| "those_indices (c # cs) =
     (case b64_index c of
        None \<Rightarrow> None
      | Some v \<Rightarrow> (case those_indices cs of None \<Rightarrow> None | Some vs \<Rightarrow> Some (v # vs)))"

text \<open>
  \<open>atob\<close>: whitespace is removed, then the padding; a length of 1 modulo 4 and a
  character outside the alphabet throw.
\<close>

definition atob :: "jsstring \<Rightarrow> error + jsstring" where
  "atob s =
     (let t = strip_padding (filter (\<lambda>c. \<not> is_ascii_whitespace c) s) in
      if length t mod 4 = 1 then Inl InvalidCharacterError
      else (case those_indices t of
              None \<Rightarrow> Inl InvalidCharacterError
            | Some vs \<Rightarrow> Inr (map of_nat (b64_octets vs))))"

subsection \<open>\<open>TextEncoder\<close> and \<open>TextDecoder\<close>\<close>

definition is_high_surrogate :: "16 word \<Rightarrow> bool" where
  "is_high_surrogate u = (0xD800 \<le> unat u \<and> unat u \<le> 0xDBFF)"

definition is_low_surrogate :: "16 word \<Rightarrow> bool" where
  "is_low_surrogate u = (0xDC00 \<le> unat u \<and> unat u \<le> 0xDFFF)"

text \<open>A code unit on its own: an unpaired surrogate becomes U+FFFD.\<close>

definition unit_scalar :: "16 word \<Rightarrow> nat" where
  "unit_scalar u = (if is_high_surrogate u \<or> is_low_surrogate u then 0xFFFD else unat u)"

definition pair_scalar :: "16 word \<Rightarrow> 16 word \<Rightarrow> nat" where
  "pair_scalar u v = 0x10000 + (unat u - 0xD800) * 0x400 + (unat v - 0xDC00)"

text \<open>The code points of a string, as \<open>TextEncoder.encode\<close> reads it.\<close>

fun scalar_values :: "jsstring \<Rightarrow> nat list" where
  "scalar_values [] = []"
| "scalar_values [u] = [unit_scalar u]"
| "scalar_values (u # v # r) =
     (if is_high_surrogate u \<and> is_low_surrogate v then pair_scalar u v # scalar_values r
      else unit_scalar u # scalar_values (v # r))"

definition utf8_bytes :: "nat \<Rightarrow> nat list" where
  "utf8_bytes cp =
     (if cp < 0x80 then [cp]
      else if cp < 0x800 then [0xC0 + cp div 64, 0x80 + cp mod 64]
      else if cp < 0x10000 then [0xE0 + cp div 4096, 0x80 + (cp div 64) mod 64, 0x80 + cp mod 64]
      else [0xF0 + cp div 262144, 0x80 + (cp div 4096) mod 64, 0x80 + (cp div 64) mod 64,
            0x80 + cp mod 64])"

definition TextEncoder_encode :: "jsstring \<Rightarrow> byte list" where
  "TextEncoder_encode s = map of_nat (concat (map utf8_bytes (scalar_values s)))"

text \<open>
  The UTF-8 decoder, a state machine over the code point being built, the continuation
  bytes seen and needed, and the range allowed for the next byte. A byte outside that
  range ends the sequence with U+FFFD and is read again as a first byte.
\<close>

fun utf8_decoder :: "nat \<Rightarrow> nat \<Rightarrow> nat \<Rightarrow> nat \<Rightarrow> nat \<Rightarrow> nat list \<Rightarrow> nat list" where
  "utf8_decoder cp seen needed lower upper [] = (if needed \<noteq> 0 then [0xFFFD] else [])"
| "utf8_decoder cp seen needed lower upper (b # bs) =
     (if needed = 0 then
        (if b \<le> 0x7F then b # utf8_decoder 0 0 0 0x80 0xBF bs
         else if 0xC2 \<le> b \<and> b \<le> 0xDF then utf8_decoder (b mod 32) 0 1 0x80 0xBF bs
         else if 0xE0 \<le> b \<and> b \<le> 0xEF then
           utf8_decoder (b mod 16) 0 2 (if b = 0xE0 then 0xA0 else 0x80)
             (if b = 0xED then 0x9F else 0xBF) bs
         else if 0xF0 \<le> b \<and> b \<le> 0xF4 then
           utf8_decoder (b mod 8) 0 3 (if b = 0xF0 then 0x90 else 0x80)
             (if b = 0xF4 then 0x8F else 0xBF) bs
         else 0xFFFD # utf8_decoder 0 0 0 0x80 0xBF bs)
      else if b < lower \<or> upper < b then 0xFFFD # utf8_decoder 0 0 0 0x80 0xBF (b # bs)
      else if seen + 1 \<noteq> needed then
        utf8_decoder (cp * 64 + b mod 64) (seen + 1) needed 0x80 0xBF bs
      else (cp * 64 + b mod 64) # utf8_decoder 0 0 0 0x80 0xBF bs)"

definition utf8_decode :: "nat list \<Rightarrow> nat list" where
  "utf8_decode bs = utf8_decoder 0 0 0 0x80 0xBF bs"

text \<open>\<open>new TextDecoder()\<close> has \<open>ignoreBOM\<close> false: a first U+FEFF is not part of the result.\<close>

fun skip_bom :: "nat list \<Rightarrow> nat list" where
  "skip_bom [] = []"
| "skip_bom (cp # cps) = (if cp = 0xFEFF then cps else cp # cps)"

definition utf16_units :: "nat \<Rightarrow> jsstring" where
  "utf16_units cp =
     (if cp < 0x10000 then [of_nat cp]
      else [of_nat (0xD800 + (cp - 0x10000) div 0x400),
            of_nat (0xDC00 + (cp - 0x10000) mod 0x400)])"

definition TextDecoder_decode :: "byte list \<Rightarrow> jsstring" where
  "TextDecoder_decode bs = concat (map utf16_units (skip_bom (utf8_decode (map unat bs))))"

text \<open>
  Strings by their shape: \<open>well_formed\<close> has no unpaired surrogate, \<open>starts_with_bom\<close>
  begins with U+FEFF. \<open>usv_text s\<close> is \<open>s\<close> with every unpaired surrogate replaced by
  U+FFFD and a leading U+FEFF removed.
\<close>

fun well_formed :: "jsstring \<Rightarrow> bool" where
  "well_formed [] = True"
| "well_formed [u] = (\<not> is_high_surrogate u \<and> \<not> is_low_surrogate u)"
| "well_formed (u # v # r) =
     (if is_high_surrogate u \<and> is_low_surrogate v then well_formed r
      else \<not> is_high_surrogate u \<and> \<not> is_low_surrogate u \<and> well_formed (v # r))"

fun starts_with_bom :: "jsstring \<Rightarrow> bool" where
  "starts_with_bom [] = False"
| "starts_with_bom (u # r) = (u = 0xFEFF)"

definition usv_text :: "jsstring \<Rightarrow> jsstring" where
  "usv_text s = concat (map utf16_units (skip_bom (scalar_values s)))"

definition valid_scalar :: "nat \<Rightarrow> bool" where
  "valid_scalar cp = (cp < 0x110000 \<and> \<not> (0xD800 \<le> cp \<and> cp \<le> 0xDFFF))"

subsection \<open>\<open>crypto.getRandomValues\<close>\<close>

text \<open>
  The random bytes the platform will hand out, in order. \<open>getRandomValues n\<close> takes the
  next \<open>n\<close> of them.
\<close>

type_synonym entropy = "nat \<Rightarrow> byte"

definition getRandomValues :: "nat \<Rightarrow> entropy \<Rightarrow> byte list \<times> entropy" where
  "getRandomValues n e = (map e [0..<n], (\<lambda>i. e (i + n)))"

subsection \<open>\<open>crypto.randomUUID\<close>\<close>


subsection \<open>\<open>crypto.subtle\<close> and \<open>JSON\<close> on keys\<close>

text \<open>
  \<open>'j\<close> is a JSON Web Key, \<open>'k\<close> a \<open>CryptoKey\<close>. \<open>None\<close> is a call that throws.
  \<open>JSON_parse_jwk\<close> and \<open>JSON_stringify_jwk\<close> are \<open>JSON.parse\<close> and \<open>JSON.stringify\<close> on
  key strings; \<open>subtle_importKey\<close> and \<open>subtle_exportKey\<close> are the \<open>'jwk'\<close> import and
  export of an AES-GCM key; \<open>subtle_deriveKey password salt iterations\<close> is PBKDF2 with
  SHA-256 to a 256-bit AES-GCM key; \<open>subtle_encrypt key iv data\<close> and
  \<open>subtle_decrypt key iv data\<close> are AES-GCM, whose decryption rejects when the
  authentication tag does not match.
\<close>

record ('j, 'k) platform =
  JSON_parse_jwk :: "jsstring \<Rightarrow> 'j option"
  JSON_stringify_jwk :: "'j \<Rightarrow> jsstring"
  subtle_importKey :: "'j \<Rightarrow> 'k option"
  subtle_exportKey :: "'k \<Rightarrow> 'j"
  subtle_deriveKey :: "byte list \<Rightarrow> byte list \<Rightarrow> nat \<Rightarrow> 'k"
  subtle_encrypt :: "'k \<Rightarrow> byte list \<Rightarrow> byte list \<Rightarrow> byte list"
  subtle_decrypt :: "'k \<Rightarrow> byte list \<Rightarrow> byte list \<Rightarrow> byte list option"

text \<open>
  What AES-GCM guarantees: decrypting, under the same key and the same twelve-byte nonce,
  what was encrypted gives the plaintext back.
\<close>

definition aead_correct :: "('j, 'k) platform \<Rightarrow> bool" where
  "aead_correct pf =
     (\<forall>k iv m. length iv = 12
        \<longrightarrow> subtle_decrypt pf k iv (subtle_encrypt pf k iv m) = Some m)"


section \<open>utils/crypto\<close>

text \<open>\<open>Uint8Array.from(atob(s), c => c.charCodeAt(0))\<close>, as both functions below write it.\<close>

definition decode_base64 :: "jsstring \<Rightarrow> error + byte list" where
  "decode_base64 s = (case atob s of Inl err \<Rightarrow> Inl err | Inr bin \<Rightarrow> Inr (charCodes bin))"


text \<open>
  \<open>deriveMasterKey\<close>: the password's UTF-8 bytes are the key material, the salt is
  the base64 decoding of \<open>salt\<close>, the iteration count is 100000, and the derived key is
  exported as a JWK string. Like the other functions of the module it runs with the
  platform's random bytes at hand (\<open>e\<close>); it draws none of them.
\<close>

definition deriveMasterKey ::
  "('j, 'k) platform \<Rightarrow> jsstring \<Rightarrow> jsstring \<Rightarrow> entropy \<Rightarrow> (error + jsstring) \<times> entropy" where
  "deriveMasterKey pf password salt e =
     (let keyMaterial = TextEncoder_encode password in
      case decode_base64 salt of
        Inl err \<Rightarrow> (Inl err, e)
      | Inr saltBytes \<Rightarrow>
          (Inr (JSON_stringify_jwk pf
                  (subtle_exportKey pf (subtle_deriveKey pf keyMaterial saltBytes 100000))), e))"

definition importKey :: "('j, 'k) platform \<Rightarrow> jsstring \<Rightarrow> error + 'k" where
  "importKey pf keyString =
     (case JSON_parse_jwk pf keyString of
        None \<Rightarrow> Inl SyntaxError
      | Some jwk \<Rightarrow>
          (case subtle_importKey pf jwk of None \<Rightarrow> Inl DataError | Some key \<Rightarrow> Inr key))"

text \<open>
  \<open>encryptVaultData\<close>: the key is imported first, then twelve random bytes are drawn for
  the nonce; the result is \<open>btoa\<close> of the nonce followed by the ciphertext. The second
  component is the random bytes left. (The bound a JavaScript engine puts on the number
  of arguments of \<open>String.fromCharCode(...combined)\<close> is not part of the model.)
\<close>

definition encryptVaultData ::
  "('j, 'k) platform \<Rightarrow> jsstring \<Rightarrow> jsstring \<Rightarrow> entropy \<Rightarrow> (error + jsstring) \<times> entropy" where
  "encryptVaultData pf data keyString e =
     (case importKey pf keyString of
        Inl err \<Rightarrow> (Inl err, e)
      | Inr key \<Rightarrow>
          (case getRandomValues 12 e of
             (iv, e') \<Rightarrow>
               (let encrypted = subtle_encrypt pf key iv (TextEncoder_encode data);
                    combined = iv @ encrypted
                in (btoa (fromCharCode combined), e'))))"

definition decryptVaultData :: "('j, 'k) platform \<Rightarrow> jsstring \<Rightarrow> jsstring \<Rightarrow> error + jsstring" where
  "decryptVaultData pf encryptedData keyString =
     (case importKey pf keyString of
        Inl err \<Rightarrow> Inl err
      | Inr key \<Rightarrow>
          (case decode_base64 encryptedData of
             Inl err \<Rightarrow> Inl err
           | Inr combined \<Rightarrow>
               (let iv = take 12 combined;
                    data = drop 12 combined
                in case subtle_decrypt pf key iv data of
                     None \<Rightarrow> Inl OperationError
                   | Some decrypted \<Rightarrow> Inr (TextDecoder_decode decrypted))))"




section \<open>The background script (extension/background)\<close>

record stored_credential =
  sc_id :: jsstring
  sc_name :: jsstring
  sc_url :: jsstring
  sc_username :: jsstring
  sc_password :: jsstring
  sc_notes :: "jsstring option"
  sc_createdAt :: jsstring

text \<open>
  What \<open>chrome.storage.local\<close> holds under \<open>vault_credentials\<close>: nothing, an array
  (the legacy, unencrypted form) or a string.
\<close>

datatype stored_value = SUndefined | SArray "stored_credential list" | SString jsstring

text \<open>
  What the background script calls besides \<open>utils/crypto\<close>: \<open>JSON.parse\<close> and
  \<open>JSON.stringify\<close> at the type \<open>StoredCredential[]\<close>, \<open>new URL(url).hostname\<close>
  (\<open>None\<close>: the call throws) and \<open>matchURL\<close> of \<open>utils/urlMatcher\<close>, which is not among
  the sources and is a parameter.
\<close>

record background_env =
  JSON_parse_credentials :: "jsstring \<Rightarrow> stored_credential list option"
  JSON_stringify_credentials :: "stored_credential list \<Rightarrow> jsstring"
  matchURL :: "jsstring \<Rightarrow> jsstring \<Rightarrow> bool"
  URL_hostname :: "jsstring \<Rightarrow> jsstring option"

text \<open>
  The body of the \<open>try\<close> of \<open>getDecryptedCredentials\<close>; \<open>read\<close> is what
  \<open>chrome.storage.local.get\<close> settles with.
\<close>

definition getDecryptedCredentials_try ::
  "('j, 'k) platform \<Rightarrow> background_env \<Rightarrow> jsstring \<Rightarrow> error + stored_value
   \<Rightarrow> error + stored_credential list" where
  "getDecryptedCredentials_try pf bg key read =
     (case read of
        Inl err \<Rightarrow> Inl err
      | Inr SUndefined \<Rightarrow> Inr []
      | Inr (SArray legacy) \<Rightarrow> Inr []
      | Inr (SString encrypted) \<Rightarrow>
          if encrypted = [] then Inr []
          else (case decryptVaultData pf encrypted key of
                  Inl err \<Rightarrow> Inl err
                | Inr decrypted \<Rightarrow>
                    (case JSON_parse_credentials bg decrypted of
                       None \<Rightarrow> Inl SyntaxError
                     | Some cs \<Rightarrow> Inr cs)))"

text \<open>
  \<open>getDecryptedCredentials\<close>: \<open>Inl\<close> would be a rejected promise. The test \<open>!sessionKey\<close>
  holds for \<open>null\<close> and for the empty string; the \<open>catch\<close> logs the error and returns the
  empty array.
\<close>

definition getDecryptedCredentials ::
  "('j, 'k) platform \<Rightarrow> background_env \<Rightarrow> jsstring option \<Rightarrow> error + stored_value
   \<Rightarrow> error + stored_credential list" where
  "getDecryptedCredentials pf bg sessionKey read =
     (case sessionKey of
        None \<Rightarrow> Inr []
      | Some key \<Rightarrow>
          if key = [] then Inr []
          else (case getDecryptedCredentials_try pf bg key read of
                  Inl err \<Rightarrow> Inr []
                | Inr cs \<Rightarrow> Inr cs))"

text \<open>\<open>handleRequestCredentials\<close>: the credentials sent in the response.\<close>

definition handleRequestCredentials ::
  "('j, 'k) platform \<Rightarrow> background_env \<Rightarrow> jsstring option \<Rightarrow> error + stored_value \<Rightarrow> jsstring
   \<Rightarrow> error + stored_credential list" where
  "handleRequestCredentials pf bg sessionKey read url =
     (case getDecryptedCredentials pf bg sessionKey read of
        Inl err \<Rightarrow> Inl err
      | Inr cs \<Rightarrow> Inr (filter (\<lambda>c. matchURL bg (sc_url c) url) cs))"





section \<open>The auth store (store/authStore)\<close>

text \<open>
  The state of the auth store. \<open>encryptionKey\<close> is left out of what the store persists:
  after a reload it is \<open>null\<close> again.
\<close>

record auth_state =
  isRegistered :: bool
  isAuthenticated :: bool
  masterPasswordHash :: "jsstring option"
  vaultSalt :: "jsstring option"
  encryptionKey :: "jsstring option"

definition initial_auth :: auth_state where
  "initial_auth =
     \<lparr>isRegistered = False, isAuthenticated = False, masterPasswordHash = None,
      vaultSalt = None, encryptionKey = None\<rparr>"

definition setRegistered :: "bool \<Rightarrow> jsstring \<Rightarrow> jsstring \<Rightarrow> auth_state \<Rightarrow> auth_state" where
  "setRegistered registered passwordHash salt a =
     a\<lparr>isRegistered := registered, masterPasswordHash := Some passwordHash,
       vaultSalt := Some salt\<rparr>"

text \<open>\<open>encryptionKey: key || null\<close>\<close>

definition setAuthenticated :: "bool \<Rightarrow> jsstring option \<Rightarrow> auth_state \<Rightarrow> auth_state" where
  "setAuthenticated authenticated key a =
     a\<lparr>isAuthenticated := authenticated,
       encryptionKey := (if truthy_string key then key else None)\<rparr>"


definition reset :: "auth_state \<Rightarrow> auth_state" where
  "reset a = initial_auth"

section \<open>The vault store (store/vaultStore)\<close>

text \<open>
  Modelled from the spec: the type \<open>Credential\<close> of \<open>utils/types\<close>, which is not among
  the sources. Its fields are \<open>id\<close>, \<open>name\<close>, \<open>url\<close>, \<open>username\<close>, \<open>password\<close>, the
  optional \<open>notes\<close> and \<open>lastUpdated\<close> in epoch milliseconds.
\<close>

record credential =
  c_id :: jsstring
  c_name :: jsstring
  c_url :: jsstring
  c_username :: jsstring
  c_password :: jsstring
  c_notes :: "jsstring option"
  c_lastUpdated :: millis


text \<open>
  \<open>Partial<Credential>\<close>, the argument of \<open>updateCredential\<close>: \<open>None\<close> is a key that is
  not in the object.
\<close>

record credential_updates =
  u_id :: "jsstring option"
  u_name :: "jsstring option"
  u_url :: "jsstring option"
  u_username :: "jsstring option"
  u_password :: "jsstring option"
  u_notes :: "jsstring option option"
  u_lastUpdated :: "millis option"

text \<open>
  Modelled from the spec: the types \<open>SyncStatus\<close> and \<open>VaultState\<close> of \<open>utils/types\<close>,
  which is not among the sources. \<open>syncStatus\<close> is one of \<open>synced\<close>, \<open>pending\<close>,
  \<open>syncing\<close>, \<open>error\<close>; \<open>lastSynced\<close> is in epoch milliseconds, or absent. The store gives
  the state the fields \<open>isLocked\<close>, \<open>credentials\<close>, \<open>syncStatus\<close> and \<open>lastSynced\<close>.
\<close>

datatype SyncStatus = Synced | Pending | Syncing | Error

record vault_state =
  isLocked :: bool
  credentials :: "credential list"
  syncStatus :: SyncStatus
  lastSynced :: "millis option"

text \<open>
  Modelled from the spec: the answer of \<open>syncService.syncChanges\<close> of
  \<open>services/sync.service\<close>, which is not among the sources. The remote contract is
  \<open>syncChanges(credentials, sinceTimestampMillis) -> { status: "synced" | "error",
  timestamp?: millis }\<close>; the call may also throw (its promise rejects).
\<close>

datatype remote_status = RemoteSynced | RemoteError

record sync_result =
  r_status :: remote_status
  r_timestamp :: "millis option"

datatype remote_outcome = Resolves sync_result | Throws

text \<open>
  The collaborators of the store: the auth store, whose \<open>encryptionKey\<close> the store reads
  with \<open>useAuthStore.getState()\<close>; \<open>saveCredentials\<close> of \<open>services/storage\<close> and
  \<open>syncService.syncChanges\<close>, which are not among the sources and are parameters
  (\<open>saveCredentials\<close> answers \<open>Some e\<close> when its promise rejects with \<open>e\<close>).
\<close>

record store_env =
  auth :: auth_state
  saveCredentials :: "credential list \<Rightarrow> jsstring \<Rightarrow> error option"
  syncChanges :: "credential list \<Rightarrow> millis \<Rightarrow> remote_outcome"

text \<open>
  What an operation does, in order: each \<open>set\<close> of the store, with the state it leaves
  (\<open>setSyncStatus\<close> is one), and each call to a collaborator.
\<close>

datatype effect =
    SetState vault_state
  | SaveCredentials "credential list" jsstring
  | WarnNoKey
  | SyncChanges "credential list" millis

text \<open>
  What an operation of the store leaves behind: the store's state once the operation and
  the sync it started have settled, what it did, and the error its promise rejected
  with, if any. No other operation of the store runs in between.
\<close>

record op_result =
  store :: vault_state
  effects :: "effect list"
  thrown :: "error option"

definition initial_state :: "millis \<Rightarrow> vault_state" where
  "initial_state now =
     \<lparr>isLocked = True, credentials = [], syncStatus = Synced, lastSynced = Some now\<rparr>"

definition setSyncStatus :: "SyncStatus \<Rightarrow> vault_state \<Rightarrow> vault_state" where
  "setSyncStatus status s = s\<lparr>syncStatus := status\<rparr>"

definition setLocked :: "bool \<Rightarrow> vault_state \<Rightarrow> vault_state" where
  "setLocked locked s = s\<lparr>isLocked := locked\<rparr>"

definition clearVault :: "vault_state \<Rightarrow> vault_state" where
  "clearVault s = s\<lparr>credentials := [], lastSynced := None, syncStatus := Synced\<rparr>"

definition setCredentials :: "credential list \<Rightarrow> vault_state \<Rightarrow> vault_state" where
  "setCredentials cs s = s\<lparr>credentials := cs\<rparr>"

text \<open>
  \<open>persistToStorage\<close>: with a key it awaits \<open>saveCredentials(credentials, key)\<close>, whose
  rejection it passes on; without one (\<open>null\<close>, or the empty string) it only warns.
\<close>

definition persistToStorage :: "store_env \<Rightarrow> credential list \<Rightarrow> effect list \<times> error option" where
  "persistToStorage env cs =
     (case encryptionKey (auth env) of
        None \<Rightarrow> ([WarnNoKey], None)
      | Some key \<Rightarrow>
          if key = [] then ([WarnNoKey], None)
          else ([SaveCredentials cs key], saveCredentials env cs key))"

text \<open>
  \<open>syncVault\<close>. \<open>set_state s\<close> is a \<open>set\<close> that leaves the store in \<open>s\<close>. The first
  step, before the remote call is awaited, sets \<open>syncing\<close>; \<open>syncVault_settle\<close> is what
  runs once the remote call has answered: the \<open>if\<close>, the \<open>else if\<close> (there is no final
  \<open>else\<close>) and the \<open>catch\<close>.
\<close>

definition set_state :: "vault_state \<Rightarrow> vault_state \<times> effect list" where
  "set_state s = (s, [SetState s])"

definition syncVault_begin :: "vault_state \<Rightarrow> vault_state" where
  "syncVault_begin s = setSyncStatus Syncing s"

definition syncVault_settle :: "remote_outcome \<Rightarrow> vault_state \<Rightarrow> vault_state \<times> effect list" where
  "syncVault_settle out s =
     (case out of
        Resolves result \<Rightarrow>
          if r_status result = RemoteSynced \<and> truthy_number (r_timestamp result)
          then set_state (s\<lparr>lastSynced := r_timestamp result, syncStatus := Synced\<rparr>)
          else if r_status result = RemoteError then set_state (setSyncStatus Error s)
          else (s, [])
      | Throws \<Rightarrow> set_state (setSyncStatus Error s))"

text \<open>\<open>lastSynced || 0\<close>\<close>

definition since :: "vault_state \<Rightarrow> millis" where
  "since s = (case lastSynced s of None \<Rightarrow> 0 | Some t \<Rightarrow> t)"

definition syncVault :: "store_env \<Rightarrow> vault_state \<Rightarrow> vault_state \<times> effect list" where
  "syncVault env s =
     (case syncVault_settle (syncChanges env (credentials s) (since s)) (syncVault_begin s) of
        (s', ev) \<Rightarrow>
          (s', [SetState (syncVault_begin s), SyncChanges (credentials s) (since s)] @ ev))"

text \<open>
  The tail shared by the three mutations: \<open>await persistToStorage(get().credentials)\<close>,
  then \<open>get().syncVault()\<close>. A rejected \<open>saveCredentials\<close> rejects the mutation before
  the sync is started. \<open>mutation env s\<close> is a whole mutation whose \<open>set\<close> leaves the store
  in \<open>s\<close>.
\<close>

definition persist_then_sync :: "store_env \<Rightarrow> vault_state \<Rightarrow> op_result" where
  "persist_then_sync env s =
     (case persistToStorage env (credentials s) of
        (ev, Some e) \<Rightarrow> \<lparr>store = s, effects = ev, thrown = Some e\<rparr>
      | (ev, None) \<Rightarrow>
          \<lparr>store = fst (syncVault env s), effects = ev @ snd (syncVault env s), thrown = None\<rparr>)"

definition mutation :: "store_env \<Rightarrow> vault_state \<Rightarrow> op_result" where
  "mutation env s =
     (let r = persist_then_sync env s in r\<lparr>effects := SetState s # effects r\<rparr>)"




text \<open>\<open>{ ...c, ...updates, lastUpdated: Date.now() }\<close>\<close>

definition merge_updates :: "credential \<Rightarrow> credential_updates \<Rightarrow> millis \<Rightarrow> credential" where
  "merge_updates c u now =
     \<lparr>c_id = (case u_id u of Some v \<Rightarrow> v | None \<Rightarrow> c_id c),
      c_name = (case u_name u of Some v \<Rightarrow> v | None \<Rightarrow> c_name c),
      c_url = (case u_url u of Some v \<Rightarrow> v | None \<Rightarrow> c_url c),
      c_username = (case u_username u of Some v \<Rightarrow> v | None \<Rightarrow> c_username c),
      c_password = (case u_password u of Some v \<Rightarrow> v | None \<Rightarrow> c_password c),
      c_notes = (case u_notes u of Some v \<Rightarrow> v | None \<Rightarrow> c_notes c),
      c_lastUpdated = now\<rparr>"

definition updateCredential_set ::
  "millis \<Rightarrow> jsstring \<Rightarrow> credential_updates \<Rightarrow> vault_state \<Rightarrow> vault_state" where
  "updateCredential_set now i u s =
     s\<lparr>credentials := map (\<lambda>c. if c_id c = i then merge_updates c u now else c) (credentials s),
       syncStatus := Pending\<rparr>"

definition updateCredential ::
  "store_env \<Rightarrow> millis \<Rightarrow> jsstring \<Rightarrow> credential_updates \<Rightarrow> vault_state \<Rightarrow> op_result" where
  "updateCredential env now i u s = mutation env (updateCredential_set now i u s)"

definition deleteCredential_set :: "jsstring \<Rightarrow> vault_state \<Rightarrow> vault_state" where
  "deleteCredential_set i s =
     s\<lparr>credentials := filter (\<lambda>c. c_id c \<noteq> i) (credentials s), syncStatus := Pending\<rparr>"

definition deleteCredential :: "store_env \<Rightarrow> jsstring \<Rightarrow> vault_state \<Rightarrow> op_result" where
  "deleteCredential env i s = mutation env (deleteCredential_set i s)"

section \<open>Example values\<close>

definition str :: "string \<Rightarrow> jsstring" where
  "str cs = map (\<lambda>c. of_nat (of_char c)) cs"

text \<open>
  A stand-in for the platform's cryptography in the examples. A key is the bytes of its
  string; the ciphertext is the plaintext behind a tag made of the key and the nonce,
  which decryption checks.
\<close>

definition toy_platform :: "(jsstring, byte list) platform" where
  "toy_platform =
     \<lparr>JSON_parse_jwk = (\<lambda>s. if s = [] then None else Some s),
      JSON_stringify_jwk = (\<lambda>j. j),
      subtle_importKey = (\<lambda>j. Some (charCodes j)),
      subtle_exportKey = fromCharCode,
      subtle_deriveKey = (\<lambda>password salt iterations. password @ salt),
      subtle_encrypt = (\<lambda>k iv m. k @ iv @ m),
      subtle_decrypt =
        (\<lambda>k iv c. if take (length k + length iv) c = k @ iv
                  then Some (drop (length k + length iv) c) else None)\<rparr>"

text \<open>
  A stand-in for \<open>JSON\<close> on credential lists, which writes the ids between brackets and
  reads the empty list only, and for \<open>crypto.randomUUID\<close>: a string of \<open>x\<close> longer than
  every id in use.
\<close>

definition toy_background :: background_env where
  "toy_background =
     \<lparr>JSON_parse_credentials = (\<lambda>s. if s = str ''[]'' then Some [] else None),
      JSON_stringify_credentials = (\<lambda>cs. str ''['' @ concat (map sc_id cs) @ str '']''),
      matchURL = (\<lambda>stored requested. stored = requested),
      URL_hostname = (\<lambda>url. if url = [] then None else Some url)\<rparr>"



definition counting :: entropy where
  "counting i = of_nat i"


definition example_credential :: credential where
  "example_credential =
     \<lparr>c_id = str ''id-1'', c_name = str ''github'', c_url = str ''https://github.com'',
      c_username = str ''u'', c_password = str ''p'', c_notes = None, c_lastUpdated = 1000\<rparr>"

definition example_state :: vault_state where
  "example_state =
     \<lparr>isLocked = False, credentials = [example_credential], syncStatus = Synced,
      lastSynced = Some 500\<rparr>"

definition example_updates :: credential_updates where
  "example_updates =
     \<lparr>u_id = None, u_name = None, u_url = None, u_username = None,
      u_password = Some (str ''q''), u_notes = None, u_lastUpdated = None\<rparr>"




definition example_auth :: auth_state where
  "example_auth =
     setAuthenticated True (Some (str ''k''))
       (setRegistered True (str ''hash'') (str ''AAECAwQFBgcICQoLDA0ODw=='') initial_auth)"

definition example_env :: "remote_outcome \<Rightarrow> store_env" where
  "example_env out =
     \<lparr>auth = example_auth, saveCredentials = (\<lambda>cs k. None), syncChanges = (\<lambda>cs t. out)\<rparr>"

section \<open>Properties of the platform functions\<close>

subsection \<open>\<open>atob\<close> undoes \<open>btoa\<close>\<close>

lemma unat_of_nat16: "n < 65536 \<Longrightarrow> unat (of_nat n :: 16 word) = n"
  by (simp add: unat_of_nat)

lemma b64_code_bound: "n < 64 \<Longrightarrow> b64_code n < 128"
  unfolding b64_code_def by arith

lemma b64_value_code: "n < 64 \<Longrightarrow> b64_value (b64_code n) = Some n"
  unfolding b64_value_def b64_code_def by (simp; arith)

lemma unat_b64_char: "n < 64 \<Longrightarrow> unat (b64_char n) = b64_code n"
  using b64_code_bound [of n] by (simp add: b64_char_def unat_of_nat16)

lemma b64_index_char: "n < 64 \<Longrightarrow> b64_index (b64_char n) = Some n"
  by (simp add: b64_index_def unat_b64_char b64_value_code)

lemma b64_char_not_pad: "n < 64 \<Longrightarrow> b64_char n \<noteq> 61"
proof
  assume "n < 64" and "b64_char n = 61"
  then have "b64_code n = 61"
    using unat_b64_char [of n] by simp
  with \<open>n < 64\<close> show False
    by (simp add: b64_code_def split: if_splits)
qed

lemma b64_char_not_ws: "n < 64 \<Longrightarrow> \<not> is_ascii_whitespace (b64_char n)"
proof
  assume "n < 64" and "is_ascii_whitespace (b64_char n)"
  then have "b64_code n \<in> {9, 10, 12, 13, 32}"
    using unat_b64_char [of n] by (auto simp add: is_ascii_whitespace_def)
  with \<open>n < 64\<close> show False
    unfolding b64_code_def by (simp split: if_splits; arith)
qed

lemma those_indices_chars: "list_all (\<lambda>n. n < 64) sx \<Longrightarrow> those_indices (map b64_char sx) = Some sx"
  by (induction sx) (simp_all add: b64_index_char)

lemma sextets_bound: "list_all (\<lambda>n. n < 256) bs \<Longrightarrow> list_all (\<lambda>n. n < 64) (b64_sextets bs)"
  by (induction bs rule: b64_sextets.induct) auto

lemma octets_sextets: "list_all (\<lambda>n. n < 256) bs \<Longrightarrow> b64_octets (b64_sextets bs) = bs"
  by (induction bs rule: b64_sextets.induct) auto

lemma length_sextets:
  "length (b64_sextets bs) = 4 * (length bs div 3) + (if length bs mod 3 = 0 then 0 else length bs mod 3 + 1)"
proof (induction bs rule: b64_sextets.induct)
  case (1 a b c bs)
  have "length (a # b # c # bs) div 3 = Suc (length bs div 3)"
    and "length (a # b # c # bs) mod 3 = length bs mod 3" by simp_all
  with 1 show ?case by simp
qed simp_all

lemma length_sextets_mod:
  "length (b64_sextets bs) mod 4 = (if length bs mod 3 = 0 then 0 else length bs mod 3 + 1)"
  by (induction bs rule: b64_sextets.induct) simp_all

lemma strip_padding_0:
  assumes "list_all (\<lambda>n. n < 64) sx"
  shows "strip_padding (map b64_char sx) = map b64_char sx"
proof (cases sx rule: rev_cases)
  case Nil
  then show ?thesis by simp
next
  case (snoc ys y)
  with assms have "b64_char y \<noteq> 61" by (simp add: b64_char_not_pad)
  with snoc show ?thesis by (simp split: list.split)
qed

lemma strip_padding_1:
  assumes "list_all (\<lambda>n. n < 64) sx" and "length sx mod 4 = 3"
  shows "strip_padding (map b64_char sx @ [61]) = map b64_char sx"
proof (cases sx rule: rev_cases)
  case Nil
  with assms show ?thesis by simp
next
  case (snoc ys y)
  with assms have "b64_char y \<noteq> 61" by (simp add: b64_char_not_pad)
  moreover from assms have "Suc (length sx) mod 4 = 0" by arith
  ultimately show ?thesis using snoc by simp
qed

lemma strip_padding_2:
  assumes "length sx mod 4 = 2"
  shows "strip_padding (map b64_char sx @ [61, 61]) = map b64_char sx"
proof -
  from assms have "Suc (Suc (length sx)) mod 4 = 0" by arith
  then show ?thesis by simp
qed

lemma strip_padding_encode:
  assumes "list_all (\<lambda>n. n < 256) bs"
  shows "strip_padding (b64_encode bs) = map b64_char (b64_sextets bs)"
proof -
  have sx: "list_all (\<lambda>n. n < 64) (b64_sextets bs)"
    using assms by (rule sextets_bound)
  consider "length bs mod 3 = 0" | "length bs mod 3 = 1" | "length bs mod 3 = 2"
    by arith
  then show ?thesis
  proof cases
    case 1
    then show ?thesis
      using strip_padding_0 [OF sx] by (simp add: b64_encode_def b64_padding_def)
  next
    case 2
    then have "length (b64_sextets bs) mod 4 = 2"
      by (simp add: length_sextets_mod)
    then show ?thesis
      using strip_padding_2 [of "b64_sextets bs"] 2
      by (simp add: b64_encode_def b64_padding_def numeral_2_eq_2)
  next
    case 3
    then have "length (b64_sextets bs) mod 4 = 3"
      by (simp add: length_sextets_mod)
    then show ?thesis
      using strip_padding_1 [OF sx] 3 by (simp add: b64_encode_def b64_padding_def)
  qed
qed

lemma length_sextets_mod4: "length (b64_sextets bs) mod 4 \<noteq> Suc 0"
proof -
  have "length bs mod 3 \<noteq> 0 \<Longrightarrow> length bs mod 3 + 1 \<noteq> Suc 0" by simp
  then show ?thesis by (simp add: length_sextets_mod)
qed

lemma no_whitespace_encode:
  assumes "list_all (\<lambda>n. n < 256) bs"
  shows "filter (\<lambda>c. \<not> is_ascii_whitespace c) (b64_encode bs) = b64_encode bs"
proof -
  have "list_all (\<lambda>n. n < 64) (b64_sextets bs)"
    using assms by (rule sextets_bound)
  then have "\<forall>c \<in> set (map b64_char (b64_sextets bs)). \<not> is_ascii_whitespace c"
    by (auto simp add: list_all_iff b64_char_not_ws)
  moreover have "\<forall>c \<in> set (b64_padding (length bs)). \<not> is_ascii_whitespace c"
    by (simp add: b64_padding_def is_ascii_whitespace_def)
  ultimately show ?thesis
    unfolding b64_encode_def by (intro filter_True) auto
qed

text \<open>\<open>atob\<close> gives back the bytes that were encoded.\<close>

lemma atob_encode:
  assumes "list_all (\<lambda>n. n < 256) bs"
  shows "atob (b64_encode bs) = Inr (map of_nat bs)"
  using assms
  by (simp add: atob_def no_whitespace_encode strip_padding_encode length_sextets_mod4
      those_indices_chars sextets_bound octets_sextets del: strip_padding.simps)

lemma unat_ucast_byte: "unat (ucast (b :: byte) :: 16 word) = unat b"
proof -
  have "unat b < 2 ^ 16"
    using unsigned_less [of b, where ?'a = nat] by simp
  then show ?thesis
    by (simp add: unsigned_ucast_eq take_bit_nat_eq_self)
qed

lemma bytes_bound: "list_all (\<lambda>n. n < 256) (map unat (bs :: byte list))"
proof -
  have "unat b < 256" for b :: byte
    using unsigned_less [of b, where ?'a = nat] by simp
  then show ?thesis by (simp add: list_all_iff)
qed

lemma btoa_fromCharCode:
  "btoa (fromCharCode bs) = Inr (b64_encode (map unat bs))"
proof -
  have "unat b < 256" for b :: byte
    using unsigned_less [of b, where ?'a = nat] by simp
  then have "\<not> list_ex (\<lambda>c. 255 < unat c) (fromCharCode bs)"
    by (auto simp add: list_ex_iff fromCharCode_def unat_ucast_byte not_less less_Suc_eq_le [symmetric])
  then show ?thesis
    by (simp add: btoa_def b64_encode_def fromCharCode_def comp_def unat_ucast_byte)
qed

lemma atob_btoa_bytes:
  "atob (b64_encode (map unat bs)) = Inr (fromCharCode bs)"
proof -
  have "map of_nat (map unat bs) = (fromCharCode bs)"
    by (simp add: fromCharCode_def comp_def)
  then show ?thesis using atob_encode [OF bytes_bound [of bs]] by simp
qed

lemma charCodes_fromCharCode: "charCodes (fromCharCode bs) = bs"
  by (simp add: charCodes_def fromCharCode_def comp_def ucast_up_ucast_id is_up)

subsection \<open>\<open>TextDecoder\<close> after \<open>TextEncoder\<close>\<close>

lemma mod_offset: "a < n \<Longrightarrow> (k * n + a) mod n = (a::nat)"
  by simp

lemma split3: "(cp::nat) = cp div 4096 * 4096 + (cp div 64) mod 64 * 64 + cp mod 64"
proof -
  define q where "q = cp div 64"
  have d: "cp div 4096 = q div 64"
    by (simp add: q_def div_mult2_eq)
  have e1: "cp = q * 64 + cp mod 64" by (simp add: q_def)
  have e2: "q = q div 64 * 64 + q mod 64" by simp
  have "cp = q div 64 * 4096 + q mod 64 * 64 + cp mod 64"
    using e1 e2 by linarith
  then show ?thesis by (simp add: d q_def [symmetric])
qed

lemma split4: "(cp::nat) = cp div 262144 * 262144 + (cp div 4096) mod 64 * 4096 + (cp div 64) mod 64 * 64 + cp mod 64"
proof -
  define q where "q = cp div 64"
  define p where "p = q div 64"
  have d: "cp div 4096 = p" "cp div 262144 = p div 64"
    by (simp_all add: p_def q_def div_mult2_eq)
  have e1: "cp = q * 64 + cp mod 64" by (simp add: q_def)
  have e2: "q = p * 64 + q mod 64" by (simp add: p_def)
  have e3: "p = p div 64 * 64 + p mod 64" by simp
  have "cp = p div 64 * 262144 + p mod 64 * 4096 + q mod 64 * 64 + cp mod 64"
    using e1 e2 e3 by linarith
  then show ?thesis by (simp add: d q_def [symmetric])
qed

lemma decode_bytes_1:
  assumes "cp < 0x80"
  shows "utf8_decode (utf8_bytes cp @ rest) = cp # utf8_decode rest"
  using assms by (simp add: utf8_decode_def utf8_bytes_def)

lemma decode_bytes_2:
  assumes "0x80 \<le> cp" and "cp < 0x800"
  shows "utf8_decode (utf8_bytes cp @ rest) = cp # utf8_decode rest"
proof -
  define a where "a = cp div 64"
  define c where "c = cp mod 64"
  have cp: "cp = a * 64 + c" and c: "c < 64" by (simp_all add: a_def c_def)
  from assms cp c have a: "2 \<le> a" "a < 32" by linarith+
  have bytes: "utf8_bytes cp = [0xC0 + a, 0x80 + c]"
    using assms by (simp add: utf8_bytes_def a_def c_def)
  have m1: "(192 + a) mod 32 = a" using mod_offset [of a 32 6] a by simp
  have m2: "(128 + c) mod 64 = c" using mod_offset [of c 64 2] c by simp
  show ?thesis
    unfolding bytes utf8_decode_def using a c by (simp add: m1 m2 cp)
qed

lemma decode_bytes_3:
  assumes "0x800 \<le> cp" and "cp < 0x10000" and "\<not> (0xD800 \<le> cp \<and> cp \<le> 0xDFFF)"
  shows "utf8_decode (utf8_bytes cp @ rest) = cp # utf8_decode rest"
proof -
  define a where "a = cp div 4096"
  define b where "b = (cp div 64) mod 64"
  define c where "c = cp mod 64"
  have cp: "cp = a * 4096 + b * 64 + c"
    unfolding a_def b_def c_def by (rule split3)
  have c: "c < 64" and b: "b < 64" by (simp_all add: b_def c_def)
  from assms cp c b have a: "a < 16" by linarith
  have lo: "a = 0 \<Longrightarrow> 32 \<le> b" using assms cp c b by linarith
  have hi: "a = 13 \<Longrightarrow> b < 32" using assms cp c b by linarith
  have bytes: "utf8_bytes cp = [0xE0 + a, 0x80 + b, 0x80 + c]"
    using assms by (simp add: utf8_bytes_def a_def b_def c_def)
  have m1: "(224 + a) mod 16 = a" using mod_offset [of a 16 14] a by simp
  have m2: "(128 + b) mod 64 = b" using mod_offset [of b 64 2] b by simp
  have m3: "(128 + c) mod 64 = c" using mod_offset [of c 64 2] c by simp
  show ?thesis
    unfolding bytes utf8_decode_def using a b c lo hi by (auto simp add: m1 m2 m3 cp)
qed

lemma decode_bytes_4:
  assumes "0x10000 \<le> cp" and "cp < 0x110000"
  shows "utf8_decode (utf8_bytes cp @ rest) = cp # utf8_decode rest"
proof -
  define a where "a = cp div 262144"
  define b where "b = (cp div 4096) mod 64"
  define c where "c = (cp div 64) mod 64"
  define d where "d = cp mod 64"
  have cp: "cp = a * 262144 + b * 4096 + c * 64 + d"
    unfolding a_def b_def c_def d_def by (rule split4)
  have d: "d < 64" and c: "c < 64" and b: "b < 64" by (simp_all add: b_def c_def d_def)
  from assms cp b c d have a: "a < 5" by linarith
  have lo: "a = 0 \<Longrightarrow> 16 \<le> b" using assms cp b c d by linarith
  have hi: "a = 4 \<Longrightarrow> b < 16" using assms cp b c d by linarith
  have bytes: "utf8_bytes cp = [0xF0 + a, 0x80 + b, 0x80 + c, 0x80 + d]"
    using assms by (simp add: utf8_bytes_def a_def b_def c_def d_def)
  have m1: "(240 + a) mod 8 = a" using mod_offset [of a 8 30] a by simp
  have m2: "(128 + b) mod 64 = b" using mod_offset [of b 64 2] b by simp
  have m3: "(128 + c) mod 64 = c" using mod_offset [of c 64 2] c by simp
  have m4: "(128 + d) mod 64 = d" using mod_offset [of d 64 2] d by simp
  show ?thesis
    unfolding bytes utf8_decode_def using a b c d lo hi by (auto simp add: m1 m2 m3 m4 cp)
qed

text \<open>The decoder reads the UTF-8 bytes of a code point back as that code point.\<close>

lemma decode_bytes:
  assumes "valid_scalar cp"
  shows "utf8_decode (utf8_bytes cp @ rest) = cp # utf8_decode rest"
proof -
  consider "cp < 0x80" | "0x80 \<le> cp" "cp < 0x800" | "0x800 \<le> cp" "cp < 0x10000" | "0x10000 \<le> cp"
    by linarith
  then show ?thesis
  proof cases
    case 1 then show ?thesis by (rule decode_bytes_1)
  next
    case 2 then show ?thesis by (rule decode_bytes_2)
  next
    case 3 with assms show ?thesis by (intro decode_bytes_3) (simp_all add: valid_scalar_def)
  next
    case 4 with assms show ?thesis by (intro decode_bytes_4) (simp_all add: valid_scalar_def)
  qed
qed

lemma decode_encode_scalars:
  "list_all valid_scalar cps \<Longrightarrow> utf8_decode (concat (map utf8_bytes cps)) = cps"
proof (induction cps)
  case Nil
  show ?case by (simp add: utf8_decode_def)
next
  case (Cons cp cps)
  then show ?case by (simp add: decode_bytes)
qed

lemma unat_unit_bound: "unat (u :: 16 word) < 65536"
  using unsigned_less [of u, where ?'a = nat] by simp

lemma valid_unit_scalar: "valid_scalar (unit_scalar u)"
  using unat_unit_bound [of u]
  by (auto simp add: valid_scalar_def unit_scalar_def is_high_surrogate_def is_low_surrogate_def)

lemma pair_scalar_range:
  assumes "is_high_surrogate u" and "is_low_surrogate v"
  shows "0x10000 \<le> pair_scalar u v" and "pair_scalar u v < 0x110000"
proof -
  from assms have "unat u \<le> 0xDBFF" and "unat v \<le> 0xDFFF"
    by (simp_all add: is_high_surrogate_def is_low_surrogate_def)
  then have "unat u - 0xD800 \<le> 0x3FF" and "unat v - 0xDC00 \<le> 0x3FF"
    by linarith+
  then have "(unat u - 0xD800) * 0x400 + (unat v - 0xDC00) \<le> 0x3FF * 0x400 + 0x3FF"
    by (intro add_mono mult_le_mono1)
  then show "pair_scalar u v < 0x110000"
    by (simp add: pair_scalar_def)
  show "0x10000 \<le> pair_scalar u v"
    by (simp add: pair_scalar_def)
qed

lemma valid_pair_scalar:
  "is_high_surrogate u \<Longrightarrow> is_low_surrogate v \<Longrightarrow> valid_scalar (pair_scalar u v)"
  using pair_scalar_range [of u v] by (simp add: valid_scalar_def)

lemma valid_scalar_values: "list_all valid_scalar (scalar_values s)"
  by (induction s rule: scalar_values.induct)
    (simp_all add: valid_unit_scalar valid_pair_scalar)

lemma units_unit_scalar:
  "\<not> is_high_surrogate u \<Longrightarrow> \<not> is_low_surrogate u \<Longrightarrow> utf16_units (unit_scalar u) = [u]"
  using unat_unit_bound [of u] by (simp add: utf16_units_def unit_scalar_def)

lemma units_pair_scalar:
  assumes "is_high_surrogate u" and "is_low_surrogate v"
  shows "utf16_units (pair_scalar u v) = [u, v]"
proof -
  define h where "h = unat u - 0xD800"
  define l where "l = unat v - 0xDC00"
  from assms have "0xD800 \<le> unat u" and "0xDC00 \<le> unat v" and "unat v \<le> 0xDFFF"
    by (simp_all add: is_high_surrogate_def is_low_surrogate_def)
  then have u: "unat u = 0xD800 + h" and v: "unat v = 0xDC00 + l" and l: "l < 0x400"
    unfolding h_def l_def by linarith+
  have p: "pair_scalar u v - 0x10000 = h * 0x400 + l"
    by (simp add: pair_scalar_def h_def l_def)
  have "(h * 0x400 + l) div 0x400 = h" and "(h * 0x400 + l) mod 0x400 = l"
    using l by simp_all
  then have "utf16_units (pair_scalar u v) = [of_nat (unat u), of_nat (unat v)]"
    using pair_scalar_range [OF assms] by (simp add: utf16_units_def p u v)
  then show ?thesis by simp
qed

lemma well_formed_units:
  "well_formed s \<Longrightarrow> concat (map utf16_units (scalar_values s)) = s"
  by (induction s rule: scalar_values.induct)
    (auto simp add: units_unit_scalar units_pair_scalar split: if_splits)

lemma skip_bom_scalar_values:
  "\<not> starts_with_bom s \<Longrightarrow> skip_bom (scalar_values s) = scalar_values s"
proof (induction s rule: scalar_values.induct)
  case 1
  show ?case by simp
next
  case (2 u)
  then show ?case
    by (auto simp add: unit_scalar_def word_eq_iff_unsigned [where ?'a = nat])
next
  case (3 u v r)
  have "pair_scalar u v \<noteq> 0xFEFF" if "is_high_surrogate u" "is_low_surrogate v"
    using pair_scalar_range [OF that] by simp
  moreover have "unit_scalar u \<noteq> 0xFEFF"
    using 3(3) by (auto simp add: unit_scalar_def word_eq_iff_unsigned [where ?'a = nat])
  ultimately show ?case by simp
qed

lemma utf8_bytes_bound: "valid_scalar cp \<Longrightarrow> list_all (\<lambda>b. b < 256) (utf8_bytes cp)"
proof -
  assume v: "valid_scalar cp"
  have a1: "cp < 2048 \<Longrightarrow> cp div 64 < 64"
    by (rule less_mult_imp_div_less) simp
  have a2: "cp < 65536 \<Longrightarrow> cp div 4096 < 32"
    by (rule less_mult_imp_div_less) simp
  have a3: "cp div 262144 < 16"
  proof (rule less_mult_imp_div_less)
    show "cp < 16 * 262144" using v by (simp add: valid_scalar_def)
  qed
  have m: "x mod 64 < 128" for x :: nat
    using mod_less_divisor [of 64 x] by linarith
  show ?thesis
    by (simp add: utf8_bytes_def a1 a2 a3 m)
qed

lemma unat_of_nat8: "n < 256 \<Longrightarrow> unat (of_nat n :: byte) = n"
  by (simp add: unat_of_nat)

lemma encode_bytes:
  "map unat (TextEncoder_encode s) = concat (map utf8_bytes (scalar_values s))"
proof -
  have "list_all (\<lambda>b. b < 256) (concat (map utf8_bytes cps))" if "list_all valid_scalar cps" for cps
    using that by (induction cps) (simp_all add: utf8_bytes_bound)
  then have "list_all (\<lambda>b. b < 256) (concat (map utf8_bytes (scalar_values s)))"
    using valid_scalar_values by blast
  then have "map (\<lambda>b. unat (of_nat b :: byte)) (concat (map utf8_bytes (scalar_values s)))
      = concat (map utf8_bytes (scalar_values s))"
    by (intro map_idI) (auto simp add: list_all_iff unat_of_nat8)
  then show ?thesis by (simp add: TextEncoder_encode_def comp_def)
qed

text \<open>
  Decoding what was encoded gives the string with its unpaired surrogates replaced and a
  leading U+FEFF removed, and so the string itself when it has neither.
\<close>

lemma decode_encode: "TextDecoder_decode (TextEncoder_encode s) = usv_text s"
  by (simp add: TextDecoder_decode_def usv_text_def encode_bytes decode_encode_scalars
      valid_scalar_values)

lemma usv_text_well_formed:
  "well_formed s \<Longrightarrow> \<not> starts_with_bom s \<Longrightarrow> usv_text s = s"
  by (simp add: usv_text_def skip_bom_scalar_values well_formed_units)

section \<open>Properties of utils/crypto\<close>

lemma getRandomValues_length: "length (fst (getRandomValues n e)) = n"
  by (simp add: getRandomValues_def)

lemma decode_base64_encoded: "decode_base64 (b64_encode (map unat bs)) = Inr bs"
  by (simp add: decode_base64_def atob_btoa_bytes charCodes_fromCharCode)

lemma encryptVaultData_imported:
  assumes "importKey pf K = Inr key"
  shows "fst (encryptVaultData pf P K e) =
     Inr (b64_encode (map unat (fst (getRandomValues 12 e)
            @ subtle_encrypt pf key (fst (getRandomValues 12 e)) (TextEncoder_encode P))))"
  using assms
  by (simp add: encryptVaultData_def btoa_fromCharCode Let_def split: prod.split
      del: map_append)

lemma encryptVaultData_not_imported:
  assumes "importKey pf K = Inl err"
  shows "encryptVaultData pf P K e = (Inl err, e)"
  using assms by (simp add: encryptVaultData_def)

lemma decryptVaultData_envelope:
  assumes "importKey pf K = Inr key" and "length iv = 12"
  shows "decryptVaultData pf (b64_encode (map unat (iv @ ct))) K =
     (case subtle_decrypt pf key iv ct of
        None \<Rightarrow> Inl OperationError
      | Some decrypted \<Rightarrow> Inr (TextDecoder_decode decrypted))"
  using assms
  by (simp add: decryptVaultData_def decode_base64_encoded Let_def del: map_append)

text \<open>
  What \<open>decryptVaultData\<close> returns for an envelope of \<open>encryptVaultData\<close>, under the same
  key.
\<close>

lemma encrypt_then_decrypt:
  assumes "aead_correct pf" and "fst (encryptVaultData pf P K e) = Inr envelope"
  shows "decryptVaultData pf envelope K = Inr (usv_text P)"
proof (cases "importKey pf K")
  case (Inl err)
  with assms(2) show ?thesis by (simp add: encryptVaultData_not_imported)
next
  case (Inr key)
  define iv where "iv = fst (getRandomValues 12 e)"
  have len: "length iv = 12" by (simp add: iv_def getRandomValues_length)
  from assms(2) Inr
  have env: "envelope = b64_encode (map unat (iv @ subtle_encrypt pf key iv (TextEncoder_encode P)))"
    by (simp add: encryptVaultData_imported iv_def del: map_append)
  from assms(1) len
  have "subtle_decrypt pf key iv (subtle_encrypt pf key iv (TextEncoder_encode P))
      = Some (TextEncoder_encode P)"
    by (simp add: aead_correct_def)
  then show ?thesis
    unfolding env by (simp add: decryptVaultData_envelope [OF Inr len] decode_encode
        del: map_append)
qed

lemma aead_correct_toy: "aead_correct toy_platform"
  by (simp add: aead_correct_def toy_platform_def)

lemma importKey_toy: "K \<noteq> [] \<Longrightarrow> importKey toy_platform K = Inr (charCodes K)"
  by (simp add: importKey_def toy_platform_def)

lemma upt_12: "[0..<12] = [0, 1, 2, 3, 4, 5, 6, 7, 8, 9, 10, 11]"
  by (simp add: upt_rec)

lemma counting_iv: "fst (getRandomValues 12 counting) = [0, 1, 2, 3, 4, 5, 6, 7, 8, 9, 10, 11]"
  by (simp add: getRandomValues_def upt_12 counting_def)

lemmas text_codec_defs =
  TextEncoder_encode_def TextDecoder_decode_def utf8_decode_def utf16_units_def utf8_bytes_def
  unit_scalar_def pair_scalar_def is_high_surrogate_def is_low_surrogate_def

lemma b64_padding_cases:
  "b64_padding n = (if n mod 3 = 0 then [] else if n mod 3 = 1 then [61, 61] else [61])"
proof -
  consider "n mod 3 = 0" | "n mod 3 = 1" | "n mod 3 = 2" by linarith
  then show ?thesis
    by cases (simp_all add: b64_padding_def numeral_2_eq_2)
qed

lemmas base64_defs =
  btoa_def atob_def decode_base64_def b64_encode_def b64_padding_cases b64_char_def b64_code_def b64_index_def
  b64_value_def is_ascii_whitespace_def

lemma toy_envelope: "fst (encryptVaultData toy_platform (str ''[]'') (str ''k'') counting)
   = Inr (str ''AAECAwQFBgcICQoLawABAgMEBQYHCAkKC1td'')"
proof -
  have k: "str ''k'' \<noteq> []" by (simp add: str_def)
  show ?thesis
    unfolding encryptVaultData_imported [OF importKey_toy [OF k]] counting_iv
    by (simp add: toy_platform_def str_def charCodes_def text_codec_defs base64_defs)
qed

lemma toy_envelope_decrypts: "decryptVaultData toy_platform (str ''AAECAwQFBgcICQoLawABAgMEBQYHCAkKC1td'') (str ''k'')
   = Inr (str ''[]'')"
  by (simp add: decryptVaultData_def importKey_def toy_platform_def str_def charCodes_def
      text_codec_defs base64_defs Let_def)

lemma toy_envelope_wrong_key: "decryptVaultData toy_platform (str ''AAECAwQFBgcICQoLawABAgMEBQYHCAkKC1td'') (str ''j'')
   = Inl OperationError"
  by (simp add: decryptVaultData_def importKey_def toy_platform_def str_def charCodes_def
      text_codec_defs base64_defs Let_def)

text \<open>
  C1. Decrypting what \<open>encryptVaultData\<close> returned for \<open>P\<close> under \<open>K\<close>, with the same
  \<open>K\<close>, gives \<open>P\<close> with every unpaired surrogate replaced by U+FFFD and a leading
  U+FEFF removed; so it gives \<open>P\<close> itself when \<open>P\<close> has no unpaired surrogate and does
  not begin with U+FEFF (the JSON text the program encrypts is such a string). The cipher
  is any one that decrypts what it encrypted.
\<close>

theorem encrypt_decrypt_round_trip:
  assumes "aead_correct pf" and "fst (encryptVaultData pf P K e) = Inr envelope"
  shows "decryptVaultData pf envelope K = Inr (usv_text P)
       \<and> (well_formed P \<and> \<not> starts_with_bom P \<longrightarrow> decryptVaultData pf envelope K = Inr P)"
  using encrypt_then_decrypt [OF assms] by (simp add: usv_text_well_formed)

theorem encrypt_decrypt_round_trip_witness:
  "aead_correct toy_platform
   \<and> fst (encryptVaultData toy_platform (str ''[]'') (str ''k'') counting)
       = Inr (str ''AAECAwQFBgcICQoLawABAgMEBQYHCAkKC1td'')
   \<and> well_formed (str ''[]'') \<and> \<not> starts_with_bom (str ''[]'')
   \<and> decryptVaultData toy_platform (str ''AAECAwQFBgcICQoLawABAgMEBQYHCAkKC1td'') (str ''k'')
       = Inr (str ''[]'')"
proof -
  have wf: "well_formed (str ''[]'')" "\<not> starts_with_bom (str ''[]'')"
    by (simp_all add: str_def is_high_surrogate_def is_low_surrogate_def)
  from encrypt_decrypt_round_trip [OF aead_correct_toy toy_envelope] wf
  show ?thesis
    using aead_correct_toy toy_envelope by blast
qed

lemma toy_envelope_surrogate: "fst (encryptVaultData toy_platform [0xD800] (str ''k'') counting)
   = Inr (str ''AAECAwQFBgcICQoLawABAgMEBQYHCAkKC++/vQ=='')"
proof -
  have k: "str ''k'' \<noteq> []" by (simp add: str_def)
  show ?thesis
    unfolding encryptVaultData_imported [OF importKey_toy [OF k]] counting_iv
    by (simp add: toy_platform_def str_def charCodes_def text_codec_defs base64_defs)
qed

text \<open>
  The string made of the single unpaired surrogate U+D800 is encrypted as the UTF-8 bytes
  of U+FFFD, and U+FFFD is what decryption returns.
\<close>

theorem lone_surrogate_not_round_tripped:
  "fst (encryptVaultData toy_platform [0xD800] (str ''k'') counting)
     = Inr (str ''AAECAwQFBgcICQoLawABAgMEBQYHCAkKC++/vQ=='')
   \<and> decryptVaultData toy_platform (str ''AAECAwQFBgcICQoLawABAgMEBQYHCAkKC++/vQ=='') (str ''k'')
     = Inr [0xFFFD]
   \<and> decryptVaultData toy_platform (str ''AAECAwQFBgcICQoLawABAgMEBQYHCAkKC++/vQ=='') (str ''k'')
     \<noteq> Inr [0xD800]"
proof -
  have "decryptVaultData toy_platform (str ''AAECAwQFBgcICQoLawABAgMEBQYHCAkKC++/vQ=='') (str ''k'')
     = Inr [0xFFFD]"
    by (simp add: decryptVaultData_def importKey_def toy_platform_def str_def charCodes_def
      text_codec_defs base64_defs Let_def)
  then show ?thesis using toy_envelope_surrogate by simp
qed

text \<open>The same for every cipher, and for a leading byte order mark.\<close>

lemma unpaired_surrogate_replaced:
  assumes "aead_correct pf" and "fst (encryptVaultData pf [0xD800] K e) = Inr envelope"
  shows "decryptVaultData pf envelope K = Inr [0xFFFD]"
  using encrypt_then_decrypt [OF assms]
  by (simp add: usv_text_def unit_scalar_def is_high_surrogate_def utf16_units_def)

lemma leading_bom_removed:
  assumes "aead_correct pf" and "fst (encryptVaultData pf (0xFEFF # str ''[]'') K e) = Inr envelope"
  shows "decryptVaultData pf envelope K = Inr (str ''[]'')"
  using encrypt_then_decrypt [OF assms]
  by (simp add: usv_text_def unit_scalar_def is_high_surrogate_def is_low_surrogate_def
      utf16_units_def str_def)












lemma deriveMasterKey_decoded:
  assumes "decode_base64 salt = Inr b"
  shows "deriveMasterKey pf password salt e =
     (Inr (JSON_stringify_jwk pf
        (subtle_exportKey pf (subtle_deriveKey pf (TextEncoder_encode password) b 100000))), e)"
  using assms by (simp add: deriveMasterKey_def)







lemma decode_example_salts:
  "decode_base64 (str ''AAECAwQFBgcICQoLDA0ODw=='')
     = Inr [0, 1, 2, 3, 4, 5, 6, 7, 8, 9, 10, 11, 12, 13, 14, 15]"
  "decode_base64 (str ''AAAAAAAAAAAAAAAAAAAAAA=='')
     = Inr [0, 0, 0, 0, 0, 0, 0, 0, 0, 0, 0, 0, 0, 0, 0, 0]"
  by (simp_all add: str_def charCodes_def base64_defs)

lemma deriveMasterKey_examples:
  "fst (deriveMasterKey toy_platform (str ''P@ss1'') (str ''AAECAwQFBgcICQoLDA0ODw=='') counting)
     = Inr (str ''P@ss1'' @ [0, 1, 2, 3, 4, 5, 6, 7, 8, 9, 10, 11, 12, 13, 14, 15])"
  "fst (deriveMasterKey toy_platform (str ''P@ss1'') (str ''AAAAAAAAAAAAAAAAAAAAAA=='') counting)
     = Inr (str ''P@ss1'' @ [0, 0, 0, 0, 0, 0, 0, 0, 0, 0, 0, 0, 0, 0, 0, 0])"
  by (simp_all add: deriveMasterKey_decoded decode_example_salts toy_platform_def)
    (simp_all add: str_def fromCharCode_def text_codec_defs)


section \<open>Properties of the background script\<close>

lemma getDecryptedCredentials_never_rejects:
  "getDecryptedCredentials pf bg sessionKey read \<noteq> Inl err"
  by (simp add: getDecryptedCredentials_def split: sum.split option.split)

lemma getDecryptedCredentials_locked:
  "\<not> truthy_string sessionKey \<Longrightarrow> getDecryptedCredentials pf bg sessionKey read = Inr []"
  by (cases sessionKey) (simp_all add: getDecryptedCredentials_def)

lemma decryptVaultData_OperationError:
  assumes "importKey pf K = Inr key" and "decode_base64 encrypted = Inr combined"
    and "subtle_decrypt pf key (take 12 combined) (drop 12 combined) = None"
  shows "decryptVaultData pf encrypted K = Inl OperationError"
  using assms by (simp add: decryptVaultData_def Let_def)

text \<open>
  C3. Without a session key (\<open>null\<close>, or the empty string, which the test \<open>!sessionKey\<close>
  treats alike) \<open>getDecryptedCredentials\<close> resolves with the empty array and the response
  to a credential request carries no credentials, whatever the storage holds and
  whether or not reading it would fail.
\<close>

theorem locked_read_returns_empty:
  "getDecryptedCredentials pf bg None read = Inr []
   \<and> getDecryptedCredentials pf bg (Some []) read = Inr []
   \<and> handleRequestCredentials pf bg None read url = Inr []
   \<and> handleRequestCredentials pf bg (Some []) read url = Inr []"
  by (simp add: handleRequestCredentials_def getDecryptedCredentials_def)

text \<open>
  C9. When \<open>vault_credentials\<close> holds an array, \<open>getDecryptedCredentials\<close> resolves with
  the empty array, whatever the array contains and whatever the session key is, and so
  the response to a credential request carries no credentials.
\<close>

theorem legacy_array_discarded:
  "getDecryptedCredentials pf bg sessionKey (Inr (SArray legacy)) = Inr []
   \<and> handleRequestCredentials pf bg sessionKey (Inr (SArray legacy)) url = Inr []"
  by (simp add: handleRequestCredentials_def getDecryptedCredentials_def
      getDecryptedCredentials_try_def split: option.split)

text \<open>
  C2. \<open>decryptVaultData\<close> rejects with the platform's \<open>OperationError\<close> when
  \<open>crypto.subtle.decrypt\<close> rejects. \<open>getDecryptedCredentials\<close> never rejects: when the
  decryption of the stored envelope fails, for whatever reason, it resolves with the
  empty array, as it does for an empty vault.
\<close>

theorem decryption_failure_returns_empty:
  "getDecryptedCredentials pf bg sessionKey read \<noteq> Inl err
   \<and> (decryptVaultData pf encrypted sessionKey' = Inl err'
      \<longrightarrow> getDecryptedCredentials pf bg (Some sessionKey') (Inr (SString encrypted)) = Inr [])
   \<and> (importKey pf K = Inr key \<and> decode_base64 encrypted = Inr combined
        \<and> subtle_decrypt pf key (take 12 combined) (drop 12 combined) = None
      \<longrightarrow> decryptVaultData pf encrypted K = Inl OperationError)"
  using decryptVaultData_OperationError [of pf K key encrypted combined]
  by (simp add: getDecryptedCredentials_def getDecryptedCredentials_try_def
      split: sum.split option.split)

theorem decryption_failure_returns_empty_witness:
  "decryptVaultData toy_platform (str ''AAECAwQFBgcICQoLawABAgMEBQYHCAkKC1td'') (str ''j'')
     = Inl OperationError
   \<and> getDecryptedCredentials toy_platform toy_background (Some (str ''j''))
       (Inr (SString (str ''AAECAwQFBgcICQoLawABAgMEBQYHCAkKC1td''))) = Inr []
   \<and> importKey toy_platform (str ''j'') = Inr [106]
   \<and> decode_base64 (str ''AAECAwQFBgcICQoLawABAgMEBQYHCAkKC1td'')
       = Inr [0, 1, 2, 3, 4, 5, 6, 7, 8, 9, 10, 11, 107, 0, 1, 2, 3, 4, 5, 6, 7, 8, 9, 10, 11, 91, 93]
   \<and> subtle_decrypt toy_platform [106] [0, 1, 2, 3, 4, 5, 6, 7, 8, 9, 10, 11]
       [107, 0, 1, 2, 3, 4, 5, 6, 7, 8, 9, 10, 11, 91, 93] = None"
proof -
  have i: "importKey toy_platform (str ''j'') = Inr [106]"
    by (simp add: importKey_def toy_platform_def str_def charCodes_def)
  have d: "decode_base64 (str ''AAECAwQFBgcICQoLawABAgMEBQYHCAkKC1td'')
       = Inr [0, 1, 2, 3, 4, 5, 6, 7, 8, 9, 10, 11, 107, 0, 1, 2, 3, 4, 5, 6, 7, 8, 9, 10, 11, 91, 93]"
    by (simp add: str_def charCodes_def base64_defs)
  have s: "subtle_decrypt toy_platform [106] [0, 1, 2, 3, 4, 5, 6, 7, 8, 9, 10, 11]
       [107, 0, 1, 2, 3, 4, 5, 6, 7, 8, 9, 10, 11, 91, 93] = None"
    by (simp add: toy_platform_def)
  from decryption_failure_returns_empty [where pf = toy_platform and bg = toy_background
      and encrypted = "str ''AAECAwQFBgcICQoLawABAgMEBQYHCAkKC1td''" and sessionKey' = "str ''j''"
      and err' = OperationError and K = "str ''j''" and key = "[106]" and combined =
      "[0, 1, 2, 3, 4, 5, 6, 7, 8, 9, 10, 11, 107, 0, 1, 2, 3, 4, 5, 6, 7, 8, 9, 10, 11, 91, 93]"]
  show ?thesis
    using i d s by simp
qed

text \<open>
  The envelope was made under the key \<open>k\<close>; with the session key \<open>j\<close> its decryption
  fails, and the read resolves with the empty array: the same result as for a storage
  that holds nothing.
\<close>

theorem wrong_key_read_is_empty:
  "decryptVaultData toy_platform (str ''AAECAwQFBgcICQoLawABAgMEBQYHCAkKC1td'') (str ''j'')
     = Inl OperationError
   \<and> getDecryptedCredentials toy_platform toy_background (Some (str ''j''))
       (Inr (SString (str ''AAECAwQFBgcICQoLawABAgMEBQYHCAkKC1td''))) = Inr []
   \<and> getDecryptedCredentials toy_platform toy_background (Some (str ''j''))
       (Inr SUndefined) = Inr []"
  using toy_envelope_wrong_key
  by (simp add: getDecryptedCredentials_def getDecryptedCredentials_try_def str_def)






section \<open>Properties of the vault store\<close>

lemma credentials_syncVault_settle [simp]:
  "credentials (fst (syncVault_settle out s)) = credentials s"
  by (simp add: syncVault_settle_def set_state_def setSyncStatus_def split: remote_outcome.split)

lemma credentials_syncVault [simp]: "credentials (fst (syncVault env s)) = credentials s"
  by (simp add: syncVault_def syncVault_begin_def setSyncStatus_def split_beta)

lemma credentials_persist_then_sync [simp]:
  "credentials (store (persist_then_sync env s)) = credentials s"
  by (simp add: persist_then_sync_def split: prod.split option.split)

lemma credentials_mutation [simp]: "credentials (store (mutation env s)) = credentials s"
  by (simp add: mutation_def Let_def)

lemma map_unchanged_if_absent:
  "i \<notin> c_id ` set cs \<Longrightarrow> map (\<lambda>c. if c_id c = i then f c else c) cs = cs"
  by (induction cs) auto

lemma filter_unchanged_if_absent:
  "i \<notin> c_id ` set cs \<Longrightarrow> filter (\<lambda>c. c_id c \<noteq> i) cs = cs"
  by (induction cs) auto

text \<open>
  C8. For an id that no credential of the set carries, \<open>updateCredential(id, updates)\<close> and
  \<open>deleteCredential(id)\<close> leave the list of credentials exactly as it was: same elements,
  same order, same fields (\<open>lastUpdated\<close> included), whatever the key, the storage and the
  remote do.
\<close>

theorem absent_id_update_delete_noop:
  assumes "i \<notin> c_id ` set (credentials s)"
  shows "credentials (store (updateCredential env now i u s)) = credentials s
       \<and> credentials (store (deleteCredential env i s)) = credentials s"
  using assms
  by (simp add: updateCredential_def deleteCredential_def updateCredential_set_def
      deleteCredential_set_def map_unchanged_if_absent filter_unchanged_if_absent)

theorem absent_id_update_delete_noop_witness:
  "str ''id-2'' \<notin> c_id ` set (credentials example_state)
   \<and> credentials (store (updateCredential (example_env Throws) 2000 (str ''id-2'')
        example_updates example_state)) = [example_credential]
   \<and> credentials (store (deleteCredential (example_env Throws) (str ''id-2'')
        example_state)) = [example_credential]"
proof -
  have absent: "str ''id-2'' \<notin> c_id ` set (credentials example_state)"
    by (simp add: example_state_def example_credential_def str_def)
  from absent_id_update_delete_noop [OF absent, of "example_env Throws" 2000 example_updates]
  show ?thesis
    using absent by (simp add: example_state_def)
qed

text \<open>
  C10. A remote call that resolves with \<open>{ status: 'synced' }\<close> and no timestamp matches
  neither the \<open>if\<close> nor the \<open>else if\<close> of \<open>syncVault\<close>: the call completes and
  \<open>syncStatus\<close> is still \<open>syncing\<close>.
\<close>

theorem syncVault_stuck_syncing:
  "syncStatus (fst (syncVault
      (env\<lparr>syncChanges := (\<lambda>cs t. Resolves \<lparr>r_status = RemoteSynced, r_timestamp = None\<rparr>)\<rparr>) s))
   = Syncing"
  by (simp add: syncVault_def syncVault_settle_def syncVault_begin_def setSyncStatus_def)


lemma syncVault_success:
  assumes "0 < t"
  shows "syncVault (env\<lparr>syncChanges :=
             (\<lambda>cs since. Resolves \<lparr>r_status = RemoteSynced, r_timestamp = Some t\<rparr>)\<rparr>) s
       = (s\<lparr>syncStatus := Synced, lastSynced := Some t\<rparr>,
          [SetState (s\<lparr>syncStatus := Syncing\<rparr>), SyncChanges (credentials s) (since s),
           SetState (s\<lparr>syncStatus := Synced, lastSynced := Some t\<rparr>)])"
  using assms
  by (simp add: syncVault_def syncVault_settle_def syncVault_begin_def setSyncStatus_def
      set_state_def)

lemma syncVault_error:
  "syncVault (env\<lparr>syncChanges :=
       (\<lambda>cs since. Resolves \<lparr>r_status = RemoteError, r_timestamp = ts\<rparr>)\<rparr>) s
   = (s\<lparr>syncStatus := Error\<rparr>,
      [SetState (s\<lparr>syncStatus := Syncing\<rparr>), SyncChanges (credentials s) (since s),
       SetState (s\<lparr>syncStatus := Error\<rparr>)])"
  by (simp add: syncVault_def syncVault_settle_def syncVault_begin_def setSyncStatus_def
      set_state_def)

lemma syncVault_throws:
  "syncVault (env\<lparr>syncChanges := (\<lambda>cs since. Throws)\<rparr>) s
   = (s\<lparr>syncStatus := Error\<rparr>,
      [SetState (s\<lparr>syncStatus := Syncing\<rparr>), SyncChanges (credentials s) (since s),
       SetState (s\<lparr>syncStatus := Error\<rparr>)])"
  by (simp add: syncVault_def syncVault_settle_def syncVault_begin_def setSyncStatus_def
      set_state_def)

text \<open>
  The \<open>set\<close> that \<open>updateCredential\<close> and \<open>deleteCredential\<close> start with leaves
  \<open>syncStatus\<close> at \<open>pending\<close>, whatever it was.
\<close>

lemma update_delete_set_pending:
  "\<exists>s' rest. effects (updateCredential env now i u s) = SetState s' # rest
      \<and> syncStatus s' = Pending"
  "\<exists>s' rest. effects (deleteCredential env i s) = SetState s' # rest
      \<and> syncStatus s' = Pending"
  by (simp_all add: updateCredential_def deleteCredential_def mutation_def Let_def
      updateCredential_set_def deleteCredential_set_def)

text \<open>
  C5. A remote call that resolves with \<open>{ status: 'synced', timestamp: 0 }\<close> reports
  success with a timestamp, and \<open>syncVault\<close> does not move to \<open>synced\<close>: the test
  \<open>result.timestamp\<close> fails for 0, no branch runs, and the call completes with
  \<open>syncStatus\<close> still \<open>syncing\<close> and \<open>lastSynced\<close> as it was. The only \<open>set\<close> of the call
  is the one that sets \<open>syncing\<close>.
\<close>

theorem zero_timestamp_left_syncing:
  "syncVault (env\<lparr>syncChanges :=
       (\<lambda>cs since. Resolves \<lparr>r_status = RemoteSynced, r_timestamp = Some 0\<rparr>)\<rparr>) s
     = (s\<lparr>syncStatus := Syncing\<rparr>,
        [SetState (s\<lparr>syncStatus := Syncing\<rparr>), SyncChanges (credentials s) (since s)])
   \<and> syncStatus (fst (syncVault (env\<lparr>syncChanges :=
       (\<lambda>cs since. Resolves \<lparr>r_status = RemoteSynced, r_timestamp = Some 0\<rparr>)\<rparr>) s)) = Syncing
   \<and> lastSynced (fst (syncVault (env\<lparr>syncChanges :=
       (\<lambda>cs since. Resolves \<lparr>r_status = RemoteSynced, r_timestamp = Some 0\<rparr>)\<rparr>) s))
     = lastSynced s"
  by (simp add: syncVault_def syncVault_settle_def syncVault_begin_def setSyncStatus_def)

lemma persistToStorage_cases:
  "persistToStorage env cs =
     (case encryptionKey (auth env) of
        None \<Rightarrow> ([WarnNoKey], None)
      | Some key \<Rightarrow>
          if key = [] then ([WarnNoKey], None)
          else ([SaveCredentials cs key], saveCredentials env cs key))"
  by (simp add: persistToStorage_def)










end
